theory Spec2Isabelle
  imports Main
begin

section \<open>Package exec: the retry decorator\<close>

text \<open>
  The Go interfaces \<^verbatim>\<open>Action\<close>, \<^verbatim>\<open>RetryProvider\<close> and \<^verbatim>\<open>context.Context\<close> are
  records of methods over a world state \<open>'s\<close>. The world holds everything a method can
  read or mutate: the receiver's own fields, the cloud handle \<^verbatim>\<open>c\<close> and the clock that
  decides whether the context has expired. A method that mutates returns the new world.
  A Go \<^verbatim>\<open>error\<close> is \<open>'e option\<close>, \<open>None\<close> being \<^verbatim>\<open>nil\<close>; an \<^verbatim>\<open>EventList\<close> is a list
  (the nil and the empty slice are not told apart).
\<close>

record ('s, 'ev, 'e, 'm) Action =
  CanRun :: "'s \<Rightarrow> bool"
  Signal :: "'ev \<Rightarrow> 's \<Rightarrow> bool \<times> 's"
  Run :: "'s \<Rightarrow> ('ev list \<times> 'e option) \<times> 's"
  DryRun :: "'s \<Rightarrow> 'ev list"
  String :: "'s \<Rightarrow> string"
  PendingEvents :: "'s \<Rightarrow> 'ev list"
  Metadata :: "'s \<Rightarrow> 'm"

record ('s, 'e) RetryProvider =
  IsRetriable :: "'e option \<Rightarrow> 's \<Rightarrow> bool \<times> 's"

record ('s, 'e) Context =
  Err :: "'s \<Rightarrow> 'e option \<times> 's"

text \<open>\<^verbatim>\<open>type retriableAction struct { a Action; retryProvider RetryProvider }\<close>\<close>

record ('s, 'ev, 'e, 'm) retriableAction =
  ra_a :: "('s, 'ev, 'e, 'm) Action"
  ra_retryProvider :: "('s, 'e) RetryProvider"

definition NewRetriableAction ::
  "('s, 'ev, 'e, 'm) Action \<Rightarrow> ('s, 'e) RetryProvider \<Rightarrow> ('s, 'ev, 'e, 'm) retriableAction" where
  "NewRetriableAction act rp = \<lparr>ra_a = act, ra_retryProvider = rp\<rparr>"

definition retriableAction_CanRun :: "('s, 'ev, 'e, 'm) retriableAction \<Rightarrow> 's \<Rightarrow> bool" where
  "retriableAction_CanRun ra s = CanRun (ra_a ra) s"

definition retriableAction_Signal ::
  "('s, 'ev, 'e, 'm) retriableAction \<Rightarrow> 'ev \<Rightarrow> 's \<Rightarrow> bool \<times> 's" where
  "retriableAction_Signal ra e s = Signal (ra_a ra) e s"

text \<open>
  \<^verbatim>\<open>for run := true; run; run = ra.retryProvider.IsRetriable(err) && ctx.Err() == nil\<close>:
  the body is entered unconditionally the first time; after a failed run the provider is
  consulted and, only when it answers true (\<^verbatim>\<open>&&\<close> short-circuits), the context. The
  loop has no bound of its own, so the model takes fuel, one unit per run of the wrapped
  action, and hands back the world it reached when the fuel is spent.
\<close>

datatype ('r, 's) outcome = Returned 'r 's | OutOfFuel 's

fun outcome_world :: "('r, 's) outcome \<Rightarrow> 's" where
  "outcome_world (Returned r s) = s"
| "outcome_world (OutOfFuel s) = s"

fun retriableAction_Run ::
  "nat \<Rightarrow> ('s, 'ev, 'e, 'm) retriableAction \<Rightarrow> ('s, 'e) Context \<Rightarrow> 's
     \<Rightarrow> ('ev list \<times> 'e option, 's) outcome" where
  "retriableAction_Run 0 ra ctx s = OutOfFuel s"
| "retriableAction_Run (Suc fuel) ra ctx s =
     (case Run (ra_a ra) s of
        ((events, err), s1) \<Rightarrow>
          if err = None then Returned (events, err) s1
          else (case IsRetriable (ra_retryProvider ra) err s1 of
                  (retry, s2) \<Rightarrow>
                    if \<not> retry then Returned (events, err) s2
                    else (case Err ctx s2 of
                            (cerr, s3) \<Rightarrow>
                              if cerr = None then retriableAction_Run fuel ra ctx s3
                              else Returned (events, err) s3)))"

definition retriableAction_DryRun :: "('s, 'ev, 'e, 'm) retriableAction \<Rightarrow> 's \<Rightarrow> 'ev list" where
  "retriableAction_DryRun ra s = DryRun (ra_a ra) s"

definition retriableAction_String :: "('s, 'ev, 'e, 'm) retriableAction \<Rightarrow> 's \<Rightarrow> string" where
  "retriableAction_String ra s = String (ra_a ra) s @ '' with retry''"

definition retriableAction_PendingEvents ::
  "('s, 'ev, 'e, 'm) retriableAction \<Rightarrow> 's \<Rightarrow> 'ev list" where
  "retriableAction_PendingEvents ra s = PendingEvents (ra_a ra) s"

definition retriableAction_Metadata :: "('s, 'ev, 'e, 'm) retriableAction \<Rightarrow> 's \<Rightarrow> 'm" where
  "retriableAction_Metadata ra s = Metadata (ra_a ra) s"

subsection \<open>The test doubles of the retry tests\<close>

text \<open>
  \<^verbatim>\<open>fakeAction\<close> counts its runs and fails while \<^verbatim>\<open>errorRunThreshold > runCtr\<close>
  (after the increment); \<^verbatim>\<open>fakeRetryProvider\<close> counts its calls and answers
  \<^verbatim>\<open>shouldRetry\<close>. The counters are Go \<^verbatim>\<open>int\<close>s, 64 bits wide on the platforms
  the tests run on: an increment wraps around in two's complement.
\<close>

definition int64 :: "int \<Rightarrow> int" where
  "int64 x = (x + 2 ^ 63) mod 2 ^ 64 - 2 ^ 63"

datatype ActionType = ActionTypeUnset | ActionTypeUpdate

record ActionMetadata =
  Name :: string
  Type :: ActionType
  Summary :: string

record fakeAction =
  runCtr :: int
  errorRunThreshold :: int

record fakeRetryProvider =
  ctr :: int
  shouldRetry :: bool

definition fakeAction_Run :: "fakeAction \<Rightarrow> ('ev list \<times> string option) \<times> fakeAction" where
  "fakeAction_Run f =
     (let f1 = f\<lparr>runCtr := int64 (runCtr f + 1)\<rparr>
      in if errorRunThreshold f1 > runCtr f1 then (([], Some ''Action in error''), f1)
         else (([], None), f1))"

definition fakeRetryProvider_IsRetriable ::
  "string option \<Rightarrow> fakeRetryProvider \<Rightarrow> bool \<times> fakeRetryProvider" where
  "fakeRetryProvider_IsRetriable e p = (shouldRetry p, p\<lparr>ctr := int64 (ctr p + 1)\<rparr>)"

text \<open>
  The world of a test: the two doubles and the state of the context, \<open>None\<close> while it is
  live (\<^verbatim>\<open>context.Background()\<close> stays so) or the error it reports once done.
\<close>

record test_world =
  fa :: fakeAction
  frp :: fakeRetryProvider
  ctx_state :: "string option"

definition fake_Action :: "(test_world, 'ev, string, ActionMetadata) Action" where
  "fake_Action =
     \<lparr>CanRun = (\<lambda>w. True),
      Signal = (\<lambda>e w. (False, w)),
      Run = (\<lambda>w. case fakeAction_Run (fa w) of (r, f1) \<Rightarrow> (r, w\<lparr>fa := f1\<rparr>)),
      DryRun = (\<lambda>w. []),
      String = (\<lambda>w. ''fakeAction''),
      PendingEvents = (\<lambda>w. []),
      Metadata = (\<lambda>w. \<lparr>Name = ''fakeAction'', Type = ActionTypeUnset, Summary = ''''\<rparr>)\<rparr>"

definition fake_RetryProvider :: "(test_world, string) RetryProvider" where
  "fake_RetryProvider =
     \<lparr>IsRetriable = (\<lambda>e w. case fakeRetryProvider_IsRetriable e (frp w) of
                              (b, p1) \<Rightarrow> (b, w\<lparr>frp := p1\<rparr>))\<rparr>"

definition test_Context :: "(test_world, string) Context" where
  "test_Context = \<lparr>Err = (\<lambda>w. (ctx_state w, w))\<rparr>"

definition test_start :: "int \<Rightarrow> bool \<Rightarrow> string option \<Rightarrow> test_world" where
  "test_start threshold retry c =
     \<lparr>fa = \<lparr>runCtr = 0, errorRunThreshold = threshold\<rparr>,
      frp = \<lparr>ctr = 0, shouldRetry = retry\<rparr>,
      ctx_state = c\<rparr>"

definition test_ra :: "(test_world, 'ev, string, ActionMetadata) retriableAction" where
  "test_ra = NewRetriableAction fake_Action fake_RetryProvider"

subsection \<open>Instrumentation: the order of the calls a run makes\<close>

text \<open>
  To speak about the order in which \<^verbatim>\<open>Run\<close> calls its collaborators, any world can be
  paired with a log. The traced collaborators behave as the given ones on the world and
  append one entry per call: \<open>RunEv failed\<close> for a run of the wrapped action,
  \<open>RetryEv answer\<close> for a call of \<^verbatim>\<open>IsRetriable\<close>, \<open>CtxEv done\<close> for a call of
  \<^verbatim>\<open>ctx.Err()\<close>.
\<close>

datatype trace_ev = RunEv bool | RetryEv bool | CtxEv bool

definition traced_Action ::
  "('s, 'ev, 'e, 'm) Action \<Rightarrow> ('s \<times> trace_ev list, 'ev, 'e, 'm) Action" where
  "traced_Action act =
     \<lparr>CanRun = (\<lambda>(s, t). CanRun act s),
      Signal = (\<lambda>e (s, t). case Signal act e s of (b, s1) \<Rightarrow> (b, (s1, t))),
      Run = (\<lambda>(s, t). case Run act s of
                          ((events, err), s1) \<Rightarrow>
                            ((events, err), (s1, t @ [RunEv (err \<noteq> None)]))),
      DryRun = (\<lambda>(s, t). DryRun act s),
      String = (\<lambda>(s, t). String act s),
      PendingEvents = (\<lambda>(s, t). PendingEvents act s),
      Metadata = (\<lambda>(s, t). Metadata act s)\<rparr>"

definition traced_RetryProvider ::
  "('s, 'e) RetryProvider \<Rightarrow> ('s \<times> trace_ev list, 'e) RetryProvider" where
  "traced_RetryProvider rp =
     \<lparr>IsRetriable = (\<lambda>e (s, t). case IsRetriable rp e s of
                                   (b, s1) \<Rightarrow> (b, (s1, t @ [RetryEv b])))\<rparr>"

definition traced_Context :: "('s, 'e) Context \<Rightarrow> ('s \<times> trace_ev list, 'e) Context" where
  "traced_Context ctx =
     \<lparr>Err = (\<lambda>(s, t). case Err ctx s of (c, s1) \<Rightarrow> (c, (s1, t @ [CtxEv (c \<noteq> None)])))\<rparr>"

definition traced ::
  "('s, 'ev, 'e, 'm) retriableAction \<Rightarrow> ('s \<times> trace_ev list, 'ev, 'e, 'm) retriableAction" where
  "traced ra =
     \<lparr>ra_a = traced_Action (ra_a ra),
      ra_retryProvider = traced_RetryProvider (ra_retryProvider ra)\<rparr>"

text \<open>
  A log passes when each context check in it stands directly behind a failed run and the
  provider's positive answer to it.
\<close>

fun ctx_checks_follow_failed_runs :: "trace_ev list \<Rightarrow> bool" where
  "ctx_checks_follow_failed_runs [] = True"
| "ctx_checks_follow_failed_runs (RunEv True # RetryEv True # CtxEv c # rest) =
     ctx_checks_follow_failed_runs rest"
| "ctx_checks_follow_failed_runs (CtxEv c # rest) = False"
| "ctx_checks_follow_failed_runs (x # rest) = ctx_checks_follow_failed_runs rest"

fun erase :: "('r, 's \<times> trace_ev list) outcome \<Rightarrow> ('r, 's) outcome" where
  "erase (Returned r (s, t)) = Returned r s"
| "erase (OutOfFuel (s, t)) = OutOfFuel s"

subsection \<open>The runs of a call, one by one\<close>

text \<open>
  Names for what happens in the iteration of \<^verbatim>\<open>Run\<close> that starts in world \<open>s\<close>: the
  error the wrapped action returns, the provider's answer to it and the world after that
  answer, the context's answer after that, and the world in which the next iteration
  starts if the loop goes on. \<open>start_of_run i\<close> is the world in which run number \<open>i\<close>
  (counted from 0) starts when all runs before it were retried.
\<close>

definition run_err :: "('s, 'ev, 'e, 'm) retriableAction \<Rightarrow> 's \<Rightarrow> 'e option" where
  "run_err ra s = snd (fst (Run (ra_a ra) s))"

definition after_retry :: "('s, 'ev, 'e, 'm) retriableAction \<Rightarrow> 's \<Rightarrow> 's" where
  "after_retry ra s =
     snd (IsRetriable (ra_retryProvider ra) (run_err ra s) (snd (Run (ra_a ra) s)))"

definition run_retry :: "('s, 'ev, 'e, 'm) retriableAction \<Rightarrow> 's \<Rightarrow> bool" where
  "run_retry ra s =
     fst (IsRetriable (ra_retryProvider ra) (run_err ra s) (snd (Run (ra_a ra) s)))"

definition run_ctx ::
  "('s, 'ev, 'e, 'm) retriableAction \<Rightarrow> ('s, 'e) Context \<Rightarrow> 's \<Rightarrow> 'e option" where
  "run_ctx ra ctx s = fst (Err ctx (after_retry ra s))"

definition next_start ::
  "('s, 'ev, 'e, 'm) retriableAction \<Rightarrow> ('s, 'e) Context \<Rightarrow> 's \<Rightarrow> 's" where
  "next_start ra ctx s = snd (Err ctx (after_retry ra s))"

fun start_of_run ::
  "nat \<Rightarrow> ('s, 'ev, 'e, 'm) retriableAction \<Rightarrow> ('s, 'e) Context \<Rightarrow> 's \<Rightarrow> 's" where
  "start_of_run 0 ra ctx s = s"
| "start_of_run (Suc i) ra ctx s = start_of_run i ra ctx (next_start ra ctx s)"

section \<open>Package api: field paths and diff results\<close>

text \<open>
  Modelled from the spec: package \<^verbatim>\<open>api\<close> (\<^verbatim>\<open>Path\<close>, \<^verbatim>\<open>DiffItem\<close>, \<^verbatim>\<open>DiffResult\<close>) is
  not under src/. The spec calls a field path structural (\<^verbatim>\<open>Backends[0].Group\<close>) and a
  diff a list of field deltas keyed by path. A path is the list of its steps, built by
  appending as the callers in src/ do (\<^verbatim>\<open>api.Path{}.Pointer().Field("...")\<close>,
  \<^verbatim>\<open>.Index(0)\<close>); two paths are equal when they have the same steps.
\<close>

datatype path_step = PointerStep | FieldStep string | IndexStep int

type_synonym Path = "path_step list"

definition Pointer :: "Path \<Rightarrow> Path" where
  "Pointer p = p @ [PointerStep]"

definition Field :: "string \<Rightarrow> Path \<Rightarrow> Path" where
  "Field name p = p @ [FieldStep name]"

definition Index :: "int \<Rightarrow> Path \<Rightarrow> Path" where
  "Index i p = p @ [IndexStep i]"

definition Equal :: "Path \<Rightarrow> Path \<Rightarrow> bool" where
  "Equal p other = (p = other)"

text \<open>A delta: the path of the field and its two values, of some value type \<open>'v\<close>.\<close>

record 'v DiffItem =
  delta_Path :: Path
  delta_A :: 'v
  delta_B :: 'v

record 'v DiffResult =
  Items :: "'v DiffItem list"

text \<open>
  Modelled from the spec: \<^verbatim>\<open>DiffResult.HasDiff\<close> is not under src/; a diff is empty when it
  has no delta.
\<close>

definition HasDiff :: "'v DiffResult \<Rightarrow> bool" where
  "HasDiff r = (0 < length (Items r))"

section \<open>Package rnode: operations and plans\<close>

text \<open>
  The operations named in \<^verbatim>\<open>backendServiceNode.Actions\<close>, and \<^verbatim>\<open>rnode.PlanDetails\<close> with
  the three fields \<^verbatim>\<open>Diff\<close> fills in; a nil \<^verbatim>\<open>Diff\<close> pointer is \<open>None\<close>.
\<close>

datatype Operation = OpNothing | OpCreate | OpRecreate | OpUpdate | OpDelete

record 'v PlanDetails =
  pd_Operation :: Operation
  pd_Why :: string
  pd_Diff :: "'v DiffResult option"

section \<open>Package backendservice: planning a node\<close>

text \<open>
  \<^verbatim>\<open>type backendServiceNode struct { rnode.NodeBase; resource BackendService }\<close>. The base
  and the resource are type parameters. An \<^verbatim>\<open>rnode.Node\<close> handed to \<^verbatim>\<open>Diff\<close> is either
  a (non-nil) backend service node or a value of another dynamic type, of which only the
  name that \<^verbatim>\<open>%T\<close> prints matters; the nil interface is among the latter.
\<close>

record ('b, 'r) backendServiceNode =
  NodeBase :: 'b
  resource :: 'r

datatype ('b, 'r) Node = BackendServiceNode "('b, 'r) backendServiceNode" | OtherNode string

text \<open>
  The two errors of \<^verbatim>\<open>Diff\<close>: \<^verbatim>\<open>invalid type to Diff: %T\<close> and the wrapped error of the
  resource diff.
\<close>

datatype 'e node_error = InvalidTypeToDiff string | DiffFailed 'e

text \<open>\<^verbatim>\<open>strings.Join\<close>, and a value between single quotes as in \<^verbatim>\<open>'%v'\<close>.\<close>

fun Join :: "string list \<Rightarrow> string \<Rightarrow> string" where
  "Join [] sep = []"
| "Join [x] sep = x"
| "Join (x # y # ys) sep = x @ sep @ Join (y # ys) sep"

definition quoted :: "string \<Rightarrow> string" where
  "quoted x = [CHR 0x27] @ x @ [CHR 0x27]"

definition LoadBalancingScheme_path :: Path where
  "LoadBalancingScheme_path = Field ''LoadBalancingScheme'' (Pointer [])"

text \<open>
  The loop over \<^verbatim>\<open>diff.Items\<close>. Its state is the pair of locals \<^verbatim>\<open>needsRecreate\<close> and
  \<^verbatim>\<open>details\<close>; \<^verbatim>\<open>planRecreate\<close> appends a message and sets the flag. The \<^verbatim>\<open>switch\<close> has
  the one case (the default is commented out in the source). \<open>fmt_v\<close> prints a value as
  \<^verbatim>\<open>%v\<close> does.
\<close>

fun diff_items_loop ::
  "('v \<Rightarrow> string) \<Rightarrow> 'v DiffItem list \<Rightarrow> bool \<times> string list \<Rightarrow> bool \<times> string list" where
  "diff_items_loop fmt_v [] (needsRecreate, details) = (needsRecreate, details)"
| "diff_items_loop fmt_v (delta # rest) (needsRecreate, details) =
     (if Equal (delta_Path delta) LoadBalancingScheme_path
      then diff_items_loop fmt_v rest
             (True, details @ [''LoadBalancingScheme change: '' @ quoted (fmt_v (delta_A delta))
                                 @ '' -> '' @ quoted (fmt_v (delta_B delta))])
      else diff_items_loop fmt_v rest (needsRecreate, details))"

text \<open>
  \<^verbatim>\<open>func (n *backendServiceNode) Diff(gotNode rnode.Node) (*rnode.PlanDetails, error)\<close>.
  The resource's own \<^verbatim>\<open>Diff\<close> method is not under src/ and is the parameter
  \<open>resource_Diff\<close>, called as \<^verbatim>\<open>got.resource.Diff(n.resource)\<close>. A return of
  \<^verbatim>\<open>nil, err\<close> is \<open>Inl\<close>, a return of \<^verbatim>\<open>&PlanDetails{...}, nil\<close> is \<open>Inr\<close>.
\<close>

definition backendServiceNode_Diff ::
  "('r \<Rightarrow> 'r \<Rightarrow> 'e + 'v DiffResult) \<Rightarrow> ('v \<Rightarrow> string) \<Rightarrow> ('b, 'r) backendServiceNode
     \<Rightarrow> ('b, 'r) Node \<Rightarrow> 'e node_error + 'v PlanDetails" where
  "backendServiceNode_Diff resource_Diff fmt_v n gotNode =
     (case gotNode of
        OtherNode tname \<Rightarrow> Inl (InvalidTypeToDiff tname)
      | BackendServiceNode got \<Rightarrow>
          (case resource_Diff (resource got) (resource n) of
             Inl err \<Rightarrow> Inl (DiffFailed err)
           | Inr diff \<Rightarrow>
               if \<not> HasDiff diff
               then Inr \<lparr>pd_Operation = OpNothing, pd_Why = ''No diff between got and want'',
                         pd_Diff = None\<rparr>
               else (case diff_items_loop fmt_v (Items diff) (False, []) of
                       (needsRecreate, details) \<Rightarrow>
                         if needsRecreate
                         then Inr \<lparr>pd_Operation = OpRecreate,
                                   pd_Why = ''BackendService needs to be recreated: ''
                                              @ Join details '', '',
                                   pd_Diff = Some diff\<rparr>
                         else Inr \<lparr>pd_Operation = OpUpdate,
                                   pd_Why = ''update in place (changed=TODO)'',
                                   pd_Diff = Some diff\<rparr>)))"

text \<open>
  Two diffs between resources that are plain strings, for the examples: one that touches
  the backends and the load balancing scheme, and the empty one.
\<close>

definition scheme_diff :: "string DiffResult" where
  "scheme_diff =
     \<lparr>Items =
        [\<lparr>delta_Path = Field ''Group'' (Index 0 (Field ''Backends'' (Pointer []))),
          delta_A = ''neg'', delta_B = ''neg2''\<rparr>,
         \<lparr>delta_Path = Field ''LoadBalancingScheme'' (Pointer []),
          delta_A = ''INTERNAL_SELF_MANAGED'', delta_B = ''EXTERNAL''\<rparr>]\<rparr>"

definition empty_diff :: "string DiffResult" where
  "empty_diff = \<lparr>Items = []\<rparr>"

section \<open>Package backendservice: the update action of actions.go\<close>

text \<open>
  \<^verbatim>\<open>backendServiceUpdateAction\<close> is the action type that \<^verbatim>\<open>actions.go\<close> declares. Nothing
  under src/ constructs it: \<^verbatim>\<open>backendServiceNode.Actions\<close> lowers an update through
  \<^verbatim>\<open>rnode.UpdateActions\<close>, modelled in the next section.
\<close>

text \<open>
  Modelled from the spec: \<^verbatim>\<open>exec.Event\<close> is not under src/; the spec names the events
  \<^verbatim>\<open>ExistsEvent(id)\<close> and \<^verbatim>\<open>DoesNotExistEvent(id)\<close>.
\<close>

datatype 'id Event = ExistsEvent 'id | DoesNotExistEvent 'id

text \<open>
  \<^verbatim>\<open>meta.KeyType\<close> and \<^verbatim>\<open>cloud.ResourceID\<close> as the action uses them: the id carries a
  project and a key, the key has a type.
\<close>

datatype KeyType = Zonal | Regional | Global

record 'k ResourceID =
  rid_ProjectID :: string
  rid_Key :: 'k

text \<open>
  What \<^verbatim>\<open>Run\<close> calls and src/ does not hold, as parameters: the resource's \<^verbatim>\<open>ToGA()\<close>,
  the key's \<^verbatim>\<open>Type()\<close>, and the two cloud calls \<^verbatim>\<open>cl.BackendServices().Update\<close> and
  \<^verbatim>\<open>cl.RegionBackendServices().Update\<close>, which take the key and the payload, change the
  cloud \<open>'cl\<close> and return an error or nil.
\<close>

record ('k, 'r, 'ga, 'cl, 'e) cloud_deps =
  ToGA :: "'r \<Rightarrow> 'e + 'ga"
  Key_Type :: "'k \<Rightarrow> KeyType"
  BackendServices_Update :: "'k \<Rightarrow> 'ga \<Rightarrow> 'cl \<Rightarrow> 'e option \<times> 'cl"
  RegionBackendServices_Update :: "'k \<Rightarrow> 'ga \<Rightarrow> 'cl \<Rightarrow> 'e option \<times> 'cl"

text \<open>\<^verbatim>\<open>type backendServiceUpdateAction struct { exec.ActionBase; id; want }\<close>\<close>

record ('k, 'b, 'r) backendServiceUpdateAction =
  act_id :: "'k ResourceID"
  act_want :: "('b, 'r) backendServiceNode"

datatype ('k, 'e) action_error =
  ToGAFailed "'k ResourceID" 'e | UpdateFailed "'k ResourceID" 'e | InvalidKeyType "'k ResourceID"

definition backendServiceUpdateAction_Run ::
  "('k, 'r, 'ga, 'cl, 'e) cloud_deps \<Rightarrow> ('k, 'b, 'r) backendServiceUpdateAction \<Rightarrow> 'cl
     \<Rightarrow> (('k ResourceID) Event list \<times> ('k, 'e) action_error option) \<times> 'cl" where
  "backendServiceUpdateAction_Run deps act cl =
     (case ToGA deps (resource (act_want act)) of
        Inl err \<Rightarrow> (([], Some (ToGAFailed (act_id act) err)), cl)
      | Inr res \<Rightarrow>
          (case Key_Type deps (rid_Key (act_id act)) of
             Global \<Rightarrow>
               (case BackendServices_Update deps (rid_Key (act_id act)) res cl of
                  (Some err, cl1) \<Rightarrow> (([], Some (UpdateFailed (act_id act) err)), cl1)
                | (None, cl1) \<Rightarrow> (([], None), cl1))
           | Regional \<Rightarrow>
               (case RegionBackendServices_Update deps (rid_Key (act_id act)) res cl of
                  (Some err, cl1) \<Rightarrow> (([], Some (UpdateFailed (act_id act) err)), cl1)
                | (None, cl1) \<Rightarrow> (([], None), cl1))
           | Zonal \<Rightarrow> (([], Some (InvalidKeyType (act_id act))), cl)))"

definition backendServiceUpdateAction_DryRun ::
  "('k, 'b, 'r) backendServiceUpdateAction \<Rightarrow> ('k ResourceID) Event list" where
  "backendServiceUpdateAction_DryRun act = []"

section \<open>Package backendservice: lowering a planned node to actions\<close>













section \<open>Package cloud: rate limiters\<close>

text \<open>
  \<^verbatim>\<open>RateLimitKey\<close> (\<^verbatim>\<open>CallContextKey\<close> in the older tests) has the three fields the tests
  set. A \<^verbatim>\<open>*RateLimitKey\<close> is an option, \<open>None\<close> being nil.
\<close>

record RateLimitKey =
  ProjectID :: string
  Service :: string
  Operation :: string

text \<open>
  \<^verbatim>\<open>type CountingRateLimiter int\<close>, from the tests: \<^verbatim>\<open>Accept\<close> increments the counter and
  returns nil. The counters live in a heap, the list of all counters allocated so far; a
  \<^verbatim>\<open>*CountingRateLimiter\<close> is an index into it (always in range: it comes from \<^verbatim>\<open>new\<close>).
\<close>

type_synonym heap = "int list"

definition CountingRateLimiter_Accept ::
  "nat \<Rightarrow> RateLimitKey option \<Rightarrow> heap \<Rightarrow> string option \<times> heap" where
  "CountingRateLimiter_Accept crl key h = (None, h[crl := int64 (h ! crl + 1)])"

text \<open>A sequence of \<^verbatim>\<open>Accept\<close> calls, as the loops of the tests make them.\<close>

fun accept_each ::
  "(RateLimitKey option \<Rightarrow> 'h \<Rightarrow> 'e option \<times> 'h) \<Rightarrow> RateLimitKey option list \<Rightarrow> 'h
     \<Rightarrow> 'e option list \<times> 'h" where
  "accept_each acc [] h = ([], h)"
| "accept_each acc (key # keys) h =
     (case acc key h of
        (err, h1) \<Rightarrow> (case accept_each acc keys h1 of (errs, h2) \<Rightarrow> (err # errs, h2)))"

subsection \<open>CompositeRateLimiter\<close>

text \<open>
  Modelled from the spec: \<^verbatim>\<open>CompositeRateLimiter\<close>, \<^verbatim>\<open>NewCompositeRateLimiter\<close> and
  \<^verbatim>\<open>Register\<close> are not under src/ (only their tests are). The spec:
  ``CompositeRateLimiter(default) dispatches by key. \<^verbatim>\<open>Register(service, operation, rl)\<close>
  installs overrides.'' The inner rate limiters are references of a type \<open>'p\<close>.
\<close>

record 'p CompositeRateLimiter =
  defaultRL :: 'p
  rateLimiters :: "string \<times> string \<rightharpoonup> 'p"

definition NewCompositeRateLimiter :: "'p \<Rightarrow> 'p CompositeRateLimiter" where
  "NewCompositeRateLimiter rl = \<lparr>defaultRL = rl, rateLimiters = Map.empty\<rparr>"

definition Register ::
  "string \<Rightarrow> string \<Rightarrow> 'p \<Rightarrow> 'p CompositeRateLimiter \<Rightarrow> 'p CompositeRateLimiter" where
  "Register service operation rl c =
     c\<lparr>rateLimiters := (rateLimiters c)((service, operation) \<mapsto> rl)\<rparr>"

text \<open>
  Modelled from the spec: the lookup of \<^verbatim>\<open>CompositeRateLimiter.Accept\<close> is not under src/.
  The spec: ``Lookup order for key \<^verbatim>\<open>(p, s, o)\<close>: 1. \<^verbatim>\<open>(s, o)\<close> exact, 2. \<^verbatim>\<open>(s, "")\<close>
  service-default, 3. \<^verbatim>\<open>("", o)\<close> operation-default, 4. \<^verbatim>\<open>default\<close>. Project is not a
  match dimension here.'' A nil key goes to the default, as \<^verbatim>\<open>TestCompositeRateLimiter\<close>
  expects.
\<close>

definition CompositeRateLimiter_lookup ::
  "'p CompositeRateLimiter \<Rightarrow> RateLimitKey option \<Rightarrow> 'p" where
  "CompositeRateLimiter_lookup c key =
     (case key of
        None \<Rightarrow> defaultRL c
      | Some k \<Rightarrow>
          (case rateLimiters c (Service k, Operation k) of
             Some rl \<Rightarrow> rl
           | None \<Rightarrow>
               (case rateLimiters c (Service k, '''') of
                  Some rl \<Rightarrow> rl
                | None \<Rightarrow>
                    (case rateLimiters c ('''', Operation k) of
                       Some rl \<Rightarrow> rl
                     | None \<Rightarrow> defaultRL c))))"

text \<open>
  Modelled from the spec: \<^verbatim>\<open>CompositeRateLimiter.Accept\<close> is not under src/; it hands the
  call to the rate limiter the lookup finds. \<open>inner_Accept\<close> is the \<^verbatim>\<open>Accept\<close> of the inner
  rate limiters.
\<close>

definition CompositeRateLimiter_Accept ::
  "('p \<Rightarrow> RateLimitKey option \<Rightarrow> 'h \<Rightarrow> 'e option \<times> 'h) \<Rightarrow> 'p CompositeRateLimiter
     \<Rightarrow> RateLimitKey option \<Rightarrow> 'h \<Rightarrow> 'e option \<times> 'h" where
  "CompositeRateLimiter_Accept inner_Accept c key h =
     inner_Accept (CompositeRateLimiter_lookup c key) key h"

text \<open>
  \<^verbatim>\<open>TestCompositeRateLimiter_Table\<close>: the counters \<^verbatim>\<open>def\<close>, \<^verbatim>\<open>defNetRL\<close> and \<^verbatim>\<open>getNetRL\<close>
  are allocated in this order (heap indices 0, 1, 2); the three nested loops run over
  project, service and operation.
\<close>

definition table_rl :: "nat CompositeRateLimiter" where
  "table_rl =
     Register ''networks'' ''get'' 2
       (Register ''networks'' '''' 1 (NewCompositeRateLimiter 0))"

definition project_keys :: "string \<Rightarrow> RateLimitKey option list" where
  "project_keys project =
     concat (map (\<lambda>service.
       map (\<lambda>operation.
              Some \<lparr>ProjectID = project, Service = service, Operation = operation\<rparr>)
           ['''', ''get'', ''operation-does-not-exist''])
       ['''', ''networks'', ''service-does-not-exist''])"

definition table_keys :: "RateLimitKey option list" where
  "table_keys = concat (map project_keys ['''', ''projectB'', ''project-does-not-exist''])"

subsection \<open>PerProjectRateLimiter\<close>

text \<open>
  Modelled from the spec: \<^verbatim>\<open>PerProjectRateLimiter\<close> and \<^verbatim>\<open>NewPerProjectRateLimiter\<close> are
  not under src/ (only their tests are). The spec: ``PerProjectRateLimiter(factory)
  maintains a mapping ProjectID \<open>\<rightarrow>\<close> inner RateLimiter, creating a new inner on first
  sighting of a project.''
\<close>

record 'p PerProjectRateLimiter =
  rls :: "string \<rightharpoonup> 'p"

definition NewPerProjectRateLimiter :: "'p PerProjectRateLimiter" where
  "NewPerProjectRateLimiter = \<lparr>rls = Map.empty\<rparr>"

text \<open>
  Modelled from the spec: the project a key is filed under is not under src/. The spec:
  ``An absent/empty/nil ProjectID is canonicalized to a single bucket'', here the bucket
  of the empty project id.
\<close>

definition key_project :: "RateLimitKey option \<Rightarrow> string" where
  "key_project key = (case key of None \<Rightarrow> '''' | Some k \<Rightarrow> ProjectID k)"

text \<open>
  Modelled from the spec: \<^verbatim>\<open>PerProjectRateLimiter.Accept\<close> is not under src/. It looks the
  key's project up, calls the factory when the project has no inner rate limiter yet and
  files the new one, then hands the call to the inner rate limiter. The factory may
  allocate, so it takes and returns the heap \<open>'h\<close>.
\<close>

definition PerProjectRateLimiter_Accept ::
  "('h \<Rightarrow> 'p \<times> 'h) \<Rightarrow> ('p \<Rightarrow> RateLimitKey option \<Rightarrow> 'h \<Rightarrow> 'e option \<times> 'h)
     \<Rightarrow> RateLimitKey option \<Rightarrow> 'p PerProjectRateLimiter \<times> 'h
     \<Rightarrow> 'e option \<times> 'p PerProjectRateLimiter \<times> 'h" where
  "PerProjectRateLimiter_Accept factory inner_Accept key st =
     (case st of
        (pp, h) \<Rightarrow>
          (case rls pp (key_project key) of
             Some rl \<Rightarrow> (case inner_Accept rl key h of (err, h1) \<Rightarrow> (err, pp, h1))
           | None \<Rightarrow>
               (case factory h of
                  (rl, h1) \<Rightarrow>
                    (case inner_Accept rl key h1 of
                       (err, h2) \<Rightarrow>
                         (err, pp\<lparr>rls := (rls pp)(key_project key \<mapsto> rl)\<rparr>, h2)))))"

text \<open>
  The factory of \<^verbatim>\<open>TestPerProjectRateLimiter_Individual\<close>: a new counter at zero, appended
  to \<^verbatim>\<open>crls\<close>. The heap is that slice.
\<close>

definition individual_factory :: "heap \<Rightarrow> nat \<times> heap" where
  "individual_factory h = (length h, h @ [0])"

definition individual_Accept ::
  "RateLimitKey option \<Rightarrow> nat PerProjectRateLimiter \<times> heap
     \<Rightarrow> string option \<times> nat PerProjectRateLimiter \<times> heap" where
  "individual_Accept =
     PerProjectRateLimiter_Accept individual_factory CountingRateLimiter_Accept"

definition individual_test_keys :: "RateLimitKey option list" where
  "individual_test_keys =
     [Some \<lparr>ProjectID = ''first-project'', Service = '''', Operation = ''''\<rparr>,
      None,
      Some \<lparr>ProjectID = '''', Service = '''', Operation = ''''\<rparr>,
      Some \<lparr>ProjectID = ''second-project'', Service = '''', Operation = ''''\<rparr>]"

text \<open>Bookkeeping for the proofs: the calls filed under a project, and the invariant.\<close>

definition calls_for :: "string \<Rightarrow> RateLimitKey option list \<Rightarrow> int" where
  "calls_for p keys = int (length (filter (\<lambda>key. key_project key = p) keys))"

definition pp_inv :: "RateLimitKey option list \<Rightarrow> nat PerProjectRateLimiter \<times> heap \<Rightarrow> bool" where
  "pp_inv seen st =
     (case st of
        (pp, h) \<Rightarrow>
          dom (rls pp) = key_project ` set seen
          \<and> card (dom (rls pp)) = length h
          \<and> inj_on (rls pp) (dom (rls pp))
          \<and> (\<forall>p rl. rls pp p = Some rl \<longrightarrow> rl < length h \<and> h ! rl = calls_for p seen))"

section \<open>Properties of the retry decorator\<close>

text \<open>Within the range of a 64-bit integer nothing wraps.\<close>

lemma int64_id: "- (2 ^ 63) \<le> x \<Longrightarrow> x < 2 ^ 63 \<Longrightarrow> int64 x = x"
  by (simp add: int64_def)

lemma int64_small: "0 \<le> x \<Longrightarrow> x \<le> 100 \<Longrightarrow> int64 x = x"
  by (rule int64_id) simp_all

text \<open>Tracing does not change what a run does to the world or what it returns.\<close>

lemma traced_erase:
  "erase (retriableAction_Run k (traced ra) (traced_Context ctx) (s, t))
     = retriableAction_Run k ra ctx s"
  by (induction k arbitrary: s t)
     (auto simp: traced_def traced_Action_def traced_RetryProvider_def traced_Context_def
           split: prod.splits)

text \<open>
  A run only appends to the log; what it appends passes the check and, when there was
  fuel for one iteration, begins with a run of the wrapped action.
\<close>

lemma traced_grows:
  "\<exists>t. snd (outcome_world (retriableAction_Run k (traced ra) (traced_Context ctx) (s, t0)))
          = t0 @ t
       \<and> ctx_checks_follow_failed_runs t
       \<and> (0 < k \<longrightarrow> (\<exists>t1. t = RunEv (snd (fst (Run (ra_a ra) s)) \<noteq> None) # t1))"
proof (induction k arbitrary: s t0)
  case 0
  then show ?case by simp
next
  case (Suc k)
  obtain events err s1 where r: "Run (ra_a ra) s = ((events, err), s1)"
    by (metis prod.exhaust)
  obtain retry s2 where i: "IsRetriable (ra_retryProvider ra) err s1 = (retry, s2)"
    by (metis prod.exhaust)
  obtain cerr s3 where c: "Err ctx s2 = (cerr, s3)"
    by (metis prod.exhaust)
  show ?case
  proof (cases "err = None")
    case True
    with r show ?thesis
      by (simp add: traced_def traced_Action_def)
  next
    case False
    note failed = this
    show ?thesis
    proof (cases retry)
      case False
      with failed r i show ?thesis
        by (auto simp: traced_def traced_Action_def traced_RetryProvider_def)
    next
      case True
      note retry = this
      show ?thesis
      proof (cases "cerr = None")
        case False
        with failed retry r i c show ?thesis
          by (auto simp: traced_def traced_Action_def traced_RetryProvider_def
                traced_Context_def)
      next
        case True
        from Suc.IH [of s3 "t0 @ [RunEv True, RetryEv True, CtxEv False]"]
        obtain t where
          t: "snd (outcome_world (retriableAction_Run k (traced ra) (traced_Context ctx)
                 (s3, t0 @ [RunEv True, RetryEv True, CtxEv False])))
               = (t0 @ [RunEv True, RetryEv True, CtxEv False]) @ t"
          and ok: "ctx_checks_follow_failed_runs t"
          by blast
        from failed retry True r i c t ok show ?thesis
          by (auto simp: traced_def traced_Action_def traced_RetryProvider_def
                traced_Context_def)
      qed
    qed
  qed
qed

subsection \<open>One iteration of the loop\<close>

text \<open>The three ways an iteration can go, on the traced collaborators.\<close>

lemma traced_run_succeeds:
  "run_err ra s = None \<Longrightarrow>
     retriableAction_Run (Suc k) (traced ra) (traced_Context ctx) (s, t0)
       = Returned (fst (fst (Run (ra_a ra) s)), None)
           (snd (Run (ra_a ra) s), t0 @ [RunEv False])"
  by (auto simp: run_err_def traced_def traced_Action_def split: prod.splits)

lemma traced_run_gives_up:
  "run_err ra s \<noteq> None \<Longrightarrow> \<not> run_retry ra s \<Longrightarrow>
     retriableAction_Run (Suc k) (traced ra) (traced_Context ctx) (s, t0)
       = Returned (fst (fst (Run (ra_a ra) s)), run_err ra s)
           (after_retry ra s, t0 @ [RunEv True, RetryEv False])"
  by (auto simp: run_err_def run_retry_def after_retry_def traced_def traced_Action_def
        traced_RetryProvider_def split: prod.splits)

lemma traced_run_retries:
  "run_err ra s \<noteq> None \<Longrightarrow> run_retry ra s \<Longrightarrow> run_ctx ra ctx s = None \<Longrightarrow>
     retriableAction_Run (Suc k) (traced ra) (traced_Context ctx) (s, t0)
       = retriableAction_Run k (traced ra) (traced_Context ctx)
           (next_start ra ctx s, t0 @ [RunEv True, RetryEv True, CtxEv False])"
  by (auto simp: run_err_def run_retry_def run_ctx_def next_start_def after_retry_def
        traced_def traced_Action_def traced_RetryProvider_def traced_Context_def
        split: prod.splits)

text \<open>
  When the first \<open>n\<close> runs fail, are each answered with yes by the provider and leave the
  context live, the loop spends \<open>n\<close> units of fuel on them and stands at the start of
  run \<open>n\<close>, with \<open>n\<close> times run, provider, context in the log.
\<close>

lemma traced_run_after_failures:
  "\<forall>i<n. run_err ra (start_of_run i ra ctx s) \<noteq> None
          \<and> run_retry ra (start_of_run i ra ctx s)
          \<and> run_ctx ra ctx (start_of_run i ra ctx s) = None \<Longrightarrow>
   retriableAction_Run (n + k) (traced ra) (traced_Context ctx) (s, t0)
     = retriableAction_Run k (traced ra) (traced_Context ctx)
         (start_of_run n ra ctx s,
          t0 @ concat (replicate n [RunEv True, RetryEv True, CtxEv False]))"
proof (induction n arbitrary: s t0)
  case 0
  then show ?case by simp
next
  case (Suc n)
  from Suc.prems
  have first: "run_err ra s \<noteq> None" "run_retry ra s" "run_ctx ra ctx s = None"
    and rest: "\<forall>i<n. run_err ra (start_of_run i ra ctx (next_start ra ctx s)) \<noteq> None
          \<and> run_retry ra (start_of_run i ra ctx (next_start ra ctx s))
          \<and> run_ctx ra ctx (start_of_run i ra ctx (next_start ra ctx s)) = None"
    by (simp_all add: All_less_Suc2)
  have "retriableAction_Run (Suc n + k) (traced ra) (traced_Context ctx) (s, t0)
      = retriableAction_Run (n + k) (traced ra) (traced_Context ctx)
           (next_start ra ctx s, t0 @ [RunEv True, RetryEv True, CtxEv False])"
    using traced_run_retries [OF first, of "n + k" t0] by simp
  also have "\<dots> = retriableAction_Run k (traced ra) (traced_Context ctx)
         (start_of_run n ra ctx (next_start ra ctx s),
          (t0 @ [RunEv True, RetryEv True, CtxEv False])
            @ concat (replicate n [RunEv True, RetryEv True, CtxEv False]))"
    by (rule Suc.IH [OF rest])
  finally show ?case by simp
qed

text \<open>
  Claim C4 (retry exhaustion). Take any decorated action, any context and any world \<open>s\<close>
  such that the wrapped action fails on its first four runs and succeeds on the fifth.

  If the provider answers yes after each of the four failures, and the context is live
  each time (as \<^verbatim>\<open>context.Background()\<close> in \<^verbatim>\<open>TestRetriableAction\<close> is), then \<^verbatim>\<open>Run\<close>,
  given fuel for five runs, returns the events of the fifth run and a nil error in the
  world the fifth run left; its log shows exactly five runs of the wrapped action and
  exactly four calls of \<^verbatim>\<open>IsRetriable\<close>.

  If the provider answers no after the first failure, \<^verbatim>\<open>Run\<close> returns the events and the
  (non-nil) error of that run; its log shows exactly one run and one call of
  \<^verbatim>\<open>IsRetriable\<close>.
\<close>

theorem retry_exhaustion:
  assumes fails: "\<forall>i<4. run_err ra (start_of_run i ra ctx s) \<noteq> None"
    and succeeds: "run_err ra (start_of_run 4 ra ctx s) = None"
  shows "((\<forall>i<4. run_retry ra (start_of_run i ra ctx s)
                  \<and> run_ctx ra ctx (start_of_run i ra ctx s) = None) \<longrightarrow>
            retriableAction_Run (5 + k) (traced ra) (traced_Context ctx) (s, [])
              = Returned (fst (fst (Run (ra_a ra) (start_of_run 4 ra ctx s))), None)
                  (snd (Run (ra_a ra) (start_of_run 4 ra ctx s)),
                   [RunEv True, RetryEv True, CtxEv False,
                    RunEv True, RetryEv True, CtxEv False,
                    RunEv True, RetryEv True, CtxEv False,
                    RunEv True, RetryEv True, CtxEv False,
                    RunEv False])
            \<and> retriableAction_Run (5 + k) ra ctx s
              = Returned (fst (fst (Run (ra_a ra) (start_of_run 4 ra ctx s))), None)
                  (snd (Run (ra_a ra) (start_of_run 4 ra ctx s))))
       \<and> (\<not> run_retry ra s \<longrightarrow>
            run_err ra s \<noteq> None
            \<and> retriableAction_Run (Suc k) (traced ra) (traced_Context ctx) (s, [])
              = Returned (fst (fst (Run (ra_a ra) s)), run_err ra s)
                  (after_retry ra s, [RunEv True, RetryEv False])
            \<and> retriableAction_Run (Suc k) ra ctx s
              = Returned (fst (fst (Run (ra_a ra) s)), run_err ra s) (after_retry ra s))"
proof (intro conjI impI)
  assume yes: "\<forall>i<4. run_retry ra (start_of_run i ra ctx s)
                  \<and> run_ctx ra ctx (start_of_run i ra ctx s) = None"
  with fails have all: "\<forall>i<4. run_err ra (start_of_run i ra ctx s) \<noteq> None
          \<and> run_retry ra (start_of_run i ra ctx s)
          \<and> run_ctx ra ctx (start_of_run i ra ctx s) = None"
    by simp
  have split: "5 + k = 4 + Suc k" by simp
  have four: "concat (replicate 4 [RunEv True, RetryEv True, CtxEv False])
      = [RunEv True, RetryEv True, CtxEv False, RunEv True, RetryEv True, CtxEv False,
         RunEv True, RetryEv True, CtxEv False, RunEv True, RetryEv True, CtxEv False]"
    by (simp add: numeral_eq_Suc)
  show t: "retriableAction_Run (5 + k) (traced ra) (traced_Context ctx) (s, [])
      = Returned (fst (fst (Run (ra_a ra) (start_of_run 4 ra ctx s))), None)
          (snd (Run (ra_a ra) (start_of_run 4 ra ctx s)),
           [RunEv True, RetryEv True, CtxEv False,
            RunEv True, RetryEv True, CtxEv False,
            RunEv True, RetryEv True, CtxEv False,
            RunEv True, RetryEv True, CtxEv False,
            RunEv False])"
    unfolding split
    by (simp only: traced_run_after_failures [OF all] traced_run_succeeds [OF succeeds] four
          append_Nil append_Cons)
  from arg_cong [OF t, of erase]
  show "retriableAction_Run (5 + k) ra ctx s
      = Returned (fst (fst (Run (ra_a ra) (start_of_run 4 ra ctx s))), None)
          (snd (Run (ra_a ra) (start_of_run 4 ra ctx s)))"
    by (simp only: traced_erase erase.simps)
next
  assume no: "\<not> run_retry ra s"
  from fails show f: "run_err ra s \<noteq> None"
    by (simp add: numeral_eq_Suc All_less_Suc2)
  show t: "retriableAction_Run (Suc k) (traced ra) (traced_Context ctx) (s, [])
      = Returned (fst (fst (Run (ra_a ra) s)), run_err ra s)
          (after_retry ra s, [RunEv True, RetryEv False])"
    using traced_run_gives_up [OF f no, of k ctx "[]"] by simp
  from arg_cong [OF t, of erase]
  show "retriableAction_Run (Suc k) ra ctx s
      = Returned (fst (fst (Run (ra_a ra) s)), run_err ra s) (after_retry ra s)"
    by (simp only: traced_erase erase.simps)
qed

theorem retry_exhaustion_witness:
  "retriableAction_Run (5 + 0)
       (traced (test_ra :: (test_world, unit, string, ActionMetadata) retriableAction))
       (traced_Context test_Context) (test_start 5 True None, [])
     = Returned ([], None)
         (\<lparr>fa = \<lparr>runCtr = 5, errorRunThreshold = 5\<rparr>,
           frp = \<lparr>ctr = 4, shouldRetry = True\<rparr>, ctx_state = None\<rparr>,
          [RunEv True, RetryEv True, CtxEv False,
           RunEv True, RetryEv True, CtxEv False,
           RunEv True, RetryEv True, CtxEv False,
           RunEv True, RetryEv True, CtxEv False,
           RunEv False])
   \<and> retriableAction_Run (Suc 0)
       (traced (test_ra :: (test_world, unit, string, ActionMetadata) retriableAction))
       (traced_Context test_Context) (test_start 5 False None, [])
     = Returned ([], Some ''Action in error'')
         (\<lparr>fa = \<lparr>runCtr = 1, errorRunThreshold = 5\<rparr>,
           frp = \<lparr>ctr = 1, shouldRetry = False\<rparr>, ctx_state = None\<rparr>,
          [RunEv True, RetryEv False])"
proof -
  let ?ra = "test_ra :: (test_world, unit, string, ActionMetadata) retriableAction"
  note defs = run_err_def run_retry_def run_ctx_def next_start_def after_retry_def
    test_ra_def NewRetriableAction_def fake_Action_def fake_RetryProvider_def
    test_Context_def test_start_def fakeAction_Run_def fakeRetryProvider_IsRetriable_def
    int64_small
  have f1: "\<forall>i<4. run_err ?ra (start_of_run i ?ra test_Context (test_start 5 True None))
              \<noteq> None"
    by (simp add: numeral_eq_Suc All_less_Suc defs)
  have s1: "run_err ?ra (start_of_run 4 ?ra test_Context (test_start 5 True None)) = None"
    by (simp add: numeral_eq_Suc defs)
  have y1: "\<forall>i<4. run_retry ?ra (start_of_run i ?ra test_Context (test_start 5 True None))
      \<and> run_ctx ?ra test_Context
            (start_of_run i ?ra test_Context (test_start 5 True None)) = None"
    by (simp add: numeral_eq_Suc All_less_Suc defs)
  have f2: "\<forall>i<4. run_err ?ra (start_of_run i ?ra test_Context (test_start 5 False None))
              \<noteq> None"
    by (simp add: numeral_eq_Suc All_less_Suc defs)
  have s2: "run_err ?ra (start_of_run 4 ?ra test_Context (test_start 5 False None)) = None"
    by (simp add: numeral_eq_Suc defs)
  have n2: "\<not> run_retry ?ra (test_start 5 False None)"
    by (simp add: defs)
  from retry_exhaustion [OF f1 s1, of 0] y1
  have a: "retriableAction_Run (5 + 0) (traced ?ra) (traced_Context test_Context)
             (test_start 5 True None, [])
      = Returned
          (fst (fst (Run (ra_a ?ra)
                       (start_of_run 4 ?ra test_Context (test_start 5 True None)))), None)
          (snd (Run (ra_a ?ra) (start_of_run 4 ?ra test_Context (test_start 5 True None))),
           [RunEv True, RetryEv True, CtxEv False,
            RunEv True, RetryEv True, CtxEv False,
            RunEv True, RetryEv True, CtxEv False,
            RunEv True, RetryEv True, CtxEv False,
            RunEv False])"
    by blast
  from retry_exhaustion [OF f2 s2, of 0] n2
  have b: "retriableAction_Run (Suc 0) (traced ?ra) (traced_Context test_Context)
             (test_start 5 False None, [])
      = Returned (fst (fst (Run (ra_a ?ra) (test_start 5 False None))),
                  run_err ?ra (test_start 5 False None))
          (after_retry ?ra (test_start 5 False None), [RunEv True, RetryEv False])"
    by blast
  have va: "Run (ra_a ?ra) (start_of_run 4 ?ra test_Context (test_start 5 True None))
      = (([], None), \<lparr>fa = \<lparr>runCtr = 5, errorRunThreshold = 5\<rparr>,
           frp = \<lparr>ctr = 4, shouldRetry = True\<rparr>, ctx_state = None\<rparr>)"
    by (simp add: numeral_eq_Suc defs)
  have vb: "Run (ra_a ?ra) (test_start 5 False None)
      = (([], Some ''Action in error''), \<lparr>fa = \<lparr>runCtr = 1, errorRunThreshold = 5\<rparr>,
           frp = \<lparr>ctr = 0, shouldRetry = False\<rparr>, ctx_state = None\<rparr>)"
    "run_err ?ra (test_start 5 False None) = Some ''Action in error''"
    "after_retry ?ra (test_start 5 False None)
      = \<lparr>fa = \<lparr>runCtr = 1, errorRunThreshold = 5\<rparr>,
           frp = \<lparr>ctr = 1, shouldRetry = False\<rparr>, ctx_state = None\<rparr>"
    by (simp_all add: defs)
  from a b va vb show ?thesis
    by (simp only: fst_conv snd_conv simp_thms)
qed



text \<open>
  Claim C8 as stated (the decorator's \<^verbatim>\<open>String()\<close> is the wrapped action's) fails: for
  the fake action the decorator prints \<^verbatim>\<open>fakeAction with retry\<close>, the action itself
  \<^verbatim>\<open>fakeAction\<close>.
\<close>

theorem retry_string_differs:
  "retriableAction_String (NewRetriableAction fake_Action fake_RetryProvider)
       (test_start 5 True None)
     \<noteq> String (fake_Action :: (test_world, unit, string, ActionMetadata) Action)
         (test_start 5 True None)"
  by (simp add: retriableAction_String_def NewRetriableAction_def fake_Action_def)

text \<open>
  Claim C8, amended. The decorator's \<^verbatim>\<open>String()\<close> is the wrapped action's string followed
  by \<^verbatim>\<open> with retry\<close>; its \<^verbatim>\<open>Metadata()\<close>, its \<^verbatim>\<open>PendingEvents()\<close> and the events of its
  \<^verbatim>\<open>DryRun()\<close> are exactly those of the wrapped action.
\<close>

theorem retry_preserves_identity:
  "retriableAction_String (NewRetriableAction act rp) s = String act s @ '' with retry''
   \<and> retriableAction_Metadata (NewRetriableAction act rp) s = Metadata act s
   \<and> retriableAction_PendingEvents (NewRetriableAction act rp) s = PendingEvents act s
   \<and> retriableAction_DryRun (NewRetriableAction act rp) s = DryRun act s"
  by (simp add: retriableAction_String_def retriableAction_Metadata_def
        retriableAction_PendingEvents_def retriableAction_DryRun_def NewRetriableAction_def)

text \<open>
  Claim C9 (the action runs before any cancellation check). For every decorated action,
  every context (also one that is done before the call) and every starting world, a call
  of \<^verbatim>\<open>Run\<close> first runs the wrapped action: the log of the call begins with that run, and
  every context check in the log stands directly behind a failed run and the provider's
  positive answer.
\<close>

theorem run_precedes_cancellation_check:
  "\<exists>t. snd (outcome_world
              (retriableAction_Run (Suc k) (traced ra) (traced_Context ctx) (s, [])))
          = RunEv (snd (fst (Run (ra_a ra) s)) \<noteq> None) # t
       \<and> ctx_checks_follow_failed_runs (RunEv (snd (fst (Run (ra_a ra) s)) \<noteq> None) # t)"
  using traced_grows [of "Suc k" ra ctx s "[]"] by auto

section \<open>Properties of the backend service node\<close>

lemma diff_items_loop_flag:
  "fst (diff_items_loop fmt_v items (nr, ds))
     = (nr \<or> (\<exists>d \<in> set items. Equal (delta_Path d) LoadBalancingScheme_path))"
  by (induction items arbitrary: nr ds) auto

text \<open>
  Claim C1 (recreate only for the load balancing scheme). For a pair of backend service
  nodes whose resource diff succeeds and is non-empty, \<^verbatim>\<open>Diff\<close> returns a plan that
  carries the diff; its operation is \<^verbatim>\<open>OpRecreate\<close> if and only if some delta's path
  equals \<^verbatim>\<open>*.LoadBalancingScheme\<close>, whatever the other deltas are, and \<^verbatim>\<open>OpUpdate\<close>
  otherwise.
\<close>

theorem diff_recreate_iff_scheme:
  assumes "resource_Diff (resource got) (resource n) = Inr diff"
    and "HasDiff diff"
  shows "\<exists>pd. backendServiceNode_Diff resource_Diff fmt_v n (BackendServiceNode got) = Inr pd
           \<and> pd_Diff pd = Some diff
           \<and> (pd_Operation pd = OpRecreate
                \<longleftrightarrow> (\<exists>d \<in> set (Items diff). Equal (delta_Path d) (Field ''LoadBalancingScheme'' (Pointer []))))
           \<and> (pd_Operation pd = OpUpdate
                \<longleftrightarrow> \<not> (\<exists>d \<in> set (Items diff). Equal (delta_Path d) (Field ''LoadBalancingScheme'' (Pointer []))))"
proof -
  obtain nr ds where l: "diff_items_loop fmt_v (Items diff) (False, []) = (nr, ds)"
    by (metis prod.exhaust)
  with diff_items_loop_flag [of fmt_v "Items diff" False "[]"]
  have "nr = (\<exists>d \<in> set (Items diff). Equal (delta_Path d) LoadBalancingScheme_path)"
    by simp
  with assms l show ?thesis
    by (auto simp: backendServiceNode_Diff_def LoadBalancingScheme_path_def)
qed

theorem diff_recreate_iff_scheme_witness:
  "HasDiff scheme_diff
   \<and> backendServiceNode_Diff (\<lambda>g w. (Inr scheme_diff :: unit + string DiffResult)) id
        \<lparr>NodeBase = (), resource = ''want''\<rparr>
        (BackendServiceNode \<lparr>NodeBase = (), resource = ''got''\<rparr>)
      = Inr \<lparr>pd_Operation = OpRecreate,
             pd_Why = ''BackendService needs to be recreated: LoadBalancingScheme change: ''
                        @ quoted ''INTERNAL_SELF_MANAGED'' @ '' -> '' @ quoted ''EXTERNAL'',
             pd_Diff = Some scheme_diff\<rparr>"
proof -
  have h: "HasDiff scheme_diff"
    by (simp add: HasDiff_def scheme_diff_def)
  have r: "(\<lambda>g w. (Inr scheme_diff :: unit + string DiffResult))
             (resource \<lparr>NodeBase = (), resource = ''got''\<rparr>)
             (resource \<lparr>NodeBase = (), resource = ''want''\<rparr>) = Inr scheme_diff"
    by simp
  have s: "\<exists>d \<in> set (Items scheme_diff).
             Equal (delta_Path d) (Field ''LoadBalancingScheme'' (Pointer []))"
    by (simp add: scheme_diff_def Equal_def)
  from diff_recreate_iff_scheme [OF r h, of id] s
  obtain pd where
    pd: "backendServiceNode_Diff (\<lambda>g w. (Inr scheme_diff :: unit + string DiffResult)) id
           \<lparr>NodeBase = (), resource = ''want''\<rparr>
           (BackendServiceNode \<lparr>NodeBase = (), resource = ''got''\<rparr>) = Inr pd"
    and op: "pd_Operation pd = OpRecreate"
    by blast
  from pd have why: "pd_Why pd
      = ''BackendService needs to be recreated: LoadBalancingScheme change: ''
          @ quoted ''INTERNAL_SELF_MANAGED'' @ '' -> '' @ quoted ''EXTERNAL''"
    and df: "pd_Diff pd = Some scheme_diff"
    by (auto simp: backendServiceNode_Diff_def HasDiff_def scheme_diff_def Equal_def
          LoadBalancingScheme_path_def Field_def Pointer_def Index_def quoted_def)
  from pd op why df h show ?thesis
    by simp
qed

text \<open>
  Claim C2 (nothing to do on an empty diff). For a pair of backend service nodes whose
  resource diff succeeds and is empty, \<^verbatim>\<open>Diff\<close> returns the plan with operation
  \<^verbatim>\<open>OpNothing\<close> and no diff.
\<close>

theorem diff_nothing_when_empty:
  assumes "resource_Diff (resource got) (resource n) = Inr diff"
    and "\<not> HasDiff diff"
  shows "backendServiceNode_Diff resource_Diff fmt_v n (BackendServiceNode got)
           = Inr \<lparr>pd_Operation = OpNothing, pd_Why = ''No diff between got and want'',
                  pd_Diff = None\<rparr>"
  using assms by (simp add: backendServiceNode_Diff_def)

theorem diff_nothing_when_empty_witness:
  "\<not> HasDiff empty_diff
   \<and> backendServiceNode_Diff (\<lambda>g w. (Inr empty_diff :: unit + string DiffResult)) id
        \<lparr>NodeBase = (), resource = ''same''\<rparr>
        (BackendServiceNode \<lparr>NodeBase = (), resource = ''same''\<rparr>)
      = Inr \<lparr>pd_Operation = OpNothing, pd_Why = ''No diff between got and want'',
             pd_Diff = None\<rparr>"
proof -
  have h: "\<not> HasDiff empty_diff"
    by (simp add: HasDiff_def empty_diff_def)
  have r: "(\<lambda>g w. (Inr empty_diff :: unit + string DiffResult))
             (resource \<lparr>NodeBase = (), resource = ''same''\<rparr>)
             (resource \<lparr>NodeBase = (), resource = ''same''\<rparr>) = Inr empty_diff"
    by simp
  from diff_nothing_when_empty [OF r h, of id] h show ?thesis
    by simp
qed

text \<open>
  Claim C10 (a node of another type is refused). When the argument of \<^verbatim>\<open>Diff\<close> is not a
  backend service node, \<^verbatim>\<open>Diff\<close> returns the error \<^verbatim>\<open>invalid type to Diff\<close> with the
  argument's type and no plan, whatever the receiver and the resource diff are.
\<close>

theorem diff_rejects_other_node:
  "backendServiceNode_Diff resource_Diff fmt_v n (OtherNode tname)
     = Inl (InvalidTypeToDiff tname)"
  by (simp add: backendServiceNode_Diff_def)

section \<open>Properties of the lowering of an update\<close>

text \<open>
  The action type of \<^verbatim>\<open>actions.go\<close>, \<^verbatim>\<open>backendServiceUpdateAction\<close>, which nothing under
  src/ constructs, returns no event from \<^verbatim>\<open>Run\<close>, whatever the cloud answers.
\<close>

lemma backendServiceUpdateAction_Run_no_events:
  "fst (fst (backendServiceUpdateAction_Run deps act cl)) = []"
  by (simp add: backendServiceUpdateAction_Run_def
        split: sum.splits KeyType.splits prod.splits option.splits)



section \<open>Properties of the rate limiters\<close>

lemma table_rl_lookup:
  "CompositeRateLimiter_lookup table_rl (Some k)
     = (if Service k = ''networks'' then (if Operation k = ''get'' then 2 else 1) else 0)"
  by (simp add: table_rl_def Register_def NewCompositeRateLimiter_def
        CompositeRateLimiter_lookup_def)

lemma accept_each_append:
  "accept_each acc (xs @ ys) h =
     (case accept_each acc xs h of
        (es, h1) \<Rightarrow> (case accept_each acc ys h1 of (fs, h2) \<Rightarrow> (es @ fs, h2)))"
  by (induction xs arbitrary: h) (auto split: prod.splits)

text \<open>The nine calls of one project: six reach the default, two \<open>N\<close>, one \<open>NG\<close>.\<close>

lemma table_one_project:
  assumes "0 \<le> a" "a \<le> 12" "0 \<le> b" "b \<le> 4" "0 \<le> c" "c \<le> 2"
  shows "accept_each (CompositeRateLimiter_Accept CountingRateLimiter_Accept table_rl)
           (project_keys p) [a, b, c]
         = (replicate 9 None, [a + 6, b + 2, c + 1])"
  using assms
  by (simp add: project_keys_def CompositeRateLimiter_Accept_def table_rl_lookup
        CountingRateLimiter_Accept_def eval_nat_numeral int64_small)

text \<open>
  Claim C3 (routing table of the composite rate limiter). With default \<open>D\<close> (counter 0)
  and the registrations \<^verbatim>\<open>("networks", "")\<close> \<open>\<rightarrow> N\<close> (counter 1) and
  \<^verbatim>\<open>("networks", "get")\<close> \<open>\<rightarrow> NG\<close> (counter 2), accepting the 27 keys of the three
  nested loops returns nil every time and leaves the counters at 18, 6 and 3. For every
  composite rate limiter the one chosen does not depend on the key's project.
\<close>

theorem composite_table:
  "length table_keys = 27
   \<and> accept_each (CompositeRateLimiter_Accept CountingRateLimiter_Accept table_rl)
        table_keys [0, 0, 0]
      = (replicate 27 None, [18, 6, 3])
   \<and> CompositeRateLimiter_lookup c (Some (k\<lparr>ProjectID := p\<rparr>))
      = CompositeRateLimiter_lookup c (Some k)"
proof -
  have n: "length table_keys = 27"
    by (simp add: table_keys_def project_keys_def)
  have t: "accept_each (CompositeRateLimiter_Accept CountingRateLimiter_Accept table_rl)
        table_keys [0, 0, 0] = (replicate 27 None, [18, 6, 3])"
    by (simp add: table_keys_def accept_each_append table_one_project eval_nat_numeral)
  have p: "CompositeRateLimiter_lookup c (Some (k\<lparr>ProjectID := p\<rparr>))
      = CompositeRateLimiter_lookup c (Some k)"
    by (simp add: CompositeRateLimiter_lookup_def split: option.splits)
  from n t p show ?thesis by simp
qed

subsection \<open>PerProjectRateLimiter with one counter per project\<close>

lemma pp_inv_start: "pp_inv [] (NewPerProjectRateLimiter, [])"
  by (simp add: pp_inv_def NewPerProjectRateLimiter_def)

lemma calls_for_snoc:
  "calls_for p (seen @ [key]) = calls_for p seen + (if key_project key = p then 1 else 0)"
  by (simp add: calls_for_def)

lemma calls_for_unseen: "p \<notin> key_project ` set seen \<Longrightarrow> calls_for p seen = 0"
  by (auto simp: calls_for_def filter_empty_conv)

text \<open>One call keeps the invariant and returns nil.\<close>

lemma calls_for_range: "0 \<le> calls_for p seen \<and> calls_for p seen \<le> int (length seen)"
  by (simp add: calls_for_def)

lemma pp_inv_step:
  assumes "pp_inv seen st" and small: "int (length seen) + 1 < 2 ^ 63"
  shows "pp_inv (seen @ [key]) (snd (individual_Accept key st))
         \<and> fst (individual_Accept key st) = None"
proof -
  obtain pp h where st: "st = (pp, h)" by (cases st)
  let ?p = "key_project key"
  from assms st have d: "dom (rls pp) = key_project ` set seen"
    and c: "card (dom (rls pp)) = length h"
    and i: "inj_on (rls pp) (dom (rls pp))"
    and v: "\<And>p rl. rls pp p = Some rl \<Longrightarrow> rl < length h \<and> h ! rl = calls_for p seen"
    by (auto simp: pp_inv_def)
  have fin: "finite (dom (rls pp))" using d by simp
  show ?thesis
  proof (cases "rls pp ?p")
    case (Some rl)
    from v [OF Some] calls_for_range [of ?p seen] small
    have "int64 (h ! rl + 1) = h ! rl + 1"
      by (intro int64_id) simp_all
    with Some have acc: "individual_Accept key st = (None, pp, h[rl := h ! rl + 1])"
      by (simp add: individual_Accept_def PerProjectRateLimiter_Accept_def st
            CountingRateLimiter_Accept_def)
    from Some have pd: "?p \<in> dom (rls pp)" by auto
    have d': "dom (rls pp) = key_project ` set (seen @ [key])"
      using d pd by auto
    have v': "rl' < length (h[rl := h ! rl + 1])
              \<and> h[rl := h ! rl + 1] ! rl' = calls_for q (seen @ [key])"
      if q: "rls pp q = Some rl'" for q rl'
    proof (cases "q = ?p")
      case True
      with q Some have "rl' = rl" by simp
      with v [OF q] True show ?thesis by (simp add: calls_for_snoc)
    next
      case False
      have "rl' \<noteq> rl"
      proof
        assume "rl' = rl"
        with q Some have "rls pp q = rls pp ?p" by simp
        moreover from q have "q \<in> dom (rls pp)" by auto
        ultimately have "q = ?p" using i pd by (auto dest: inj_onD)
        with False show False by simp
      qed
      with v [OF q] False show ?thesis by (simp add: calls_for_snoc)
    qed
    from d' c i v' show ?thesis
      unfolding acc by (simp add: pp_inv_def)
  next
    case None
    let ?n = "length h"
    let ?pp = "pp\<lparr>rls := (rls pp)(?p \<mapsto> ?n)\<rparr>"
    let ?h = "(h @ [0])[?n := (h @ [0]) ! ?n + 1]"
    from None have acc: "individual_Accept key st = (None, ?pp, ?h)"
      by (simp add: individual_Accept_def PerProjectRateLimiter_Accept_def st
            CountingRateLimiter_Accept_def individual_factory_def int64_small)
    from None have pnd: "?p \<notin> dom (rls pp)" by auto
    have d': "dom (rls ?pp) = key_project ` set (seen @ [key])"
      using d by auto
    have c': "card (dom (rls ?pp)) = length ?h"
      using c fin pnd by simp
    have i': "inj_on (rls ?pp) (dom (rls ?pp))"
    proof (rule inj_onI)
      fix x y
      assume x: "x \<in> dom (rls ?pp)" and y: "y \<in> dom (rls ?pp)"
        and e: "rls ?pp x = rls ?pp y"
      show "x = y"
      proof (cases "x = ?p")
        case True
        show ?thesis
        proof (rule ccontr)
          assume "x \<noteq> y"
          with True e have "rls pp y = Some ?n" by (simp split: if_splits)
          from v [OF this] show False by simp
        qed
      next
        case False
        show ?thesis
        proof (cases "y = ?p")
          case True
          with False e have "rls pp x = Some ?n" by (simp split: if_splits)
          from v [OF this] show ?thesis by simp
        next
          case yf: False
          with False x y e
          have "x \<in> dom (rls pp)" "y \<in> dom (rls pp)" "rls pp x = rls pp y"
            by auto
          with i show ?thesis by (auto dest: inj_onD)
        qed
      qed
    qed
    have v': "rl' < length ?h \<and> ?h ! rl' = calls_for q (seen @ [key])"
      if q: "rls ?pp q = Some rl'" for q rl'
    proof (cases "q = ?p")
      case True
      with q have "rl' = ?n" by simp
      moreover from pnd d have "calls_for ?p seen = 0"
        by (simp add: calls_for_unseen)
      ultimately show ?thesis using True by (simp add: calls_for_snoc)
    next
      case False
      with q have "rls pp q = Some rl'" by simp
      from v [OF this] False show ?thesis
        by (simp add: calls_for_snoc nth_append)
    qed
    from d' c' i' v' show ?thesis
      unfolding acc by (simp add: pp_inv_def)
  qed
qed

lemma pp_inv_run:
  "pp_inv seen st \<Longrightarrow> int (length (seen @ keys)) < 2 ^ 63 \<Longrightarrow>
     pp_inv (seen @ keys) (snd (accept_each individual_Accept keys st))
     \<and> fst (accept_each individual_Accept keys st) = replicate (length keys) None"
proof (induction keys arbitrary: seen st)
  case Nil
  then show ?case by simp
next
  case (Cons key keys)
  from Cons.prems(2) have small: "int (length seen) + 1 < 2 ^ 63"
    and rest: "int (length ((seen @ [key]) @ keys)) < 2 ^ 63"
    by simp_all
  from pp_inv_step [OF Cons.prems(1) small, of key]
  have s: "pp_inv (seen @ [key]) (snd (individual_Accept key st))"
    and e: "fst (individual_Accept key st) = None" by simp_all
  from Cons.IH [OF s rest] e show ?case
    by (auto split: prod.splits)
qed

text \<open>
  Claim C7 (one inner rate limiter per project). Start from a fresh per-project rate
  limiter with the factory that allocates a new counter, and accept any sequence of keys;
  let \<open>pp\<close> be the limiter and \<open>crls\<close> the counters afterwards. A nil key and a key with
  the empty project id are filed under the same project, the empty one. The number of
  counters created is the number of distinct projects among the keys; distinct projects
  have distinct counters; and the counter of each project has counted exactly the calls
  filed under it, so every call after the first reused the project's counter. The
  sequence is shorter than 2^63, so no counter wraps around.
\<close>

theorem per_project_individual:
  assumes "accept_each individual_Accept keys (NewPerProjectRateLimiter, []) = (errs, pp, crls)"
    and "int (length keys) < 2 ^ 63"
  shows "key_project None = '''' \<and> key_project (Some k) = ProjectID k
       \<and> length crls = card (key_project ` set keys)
       \<and> inj_on (rls pp) (key_project ` set keys)
       \<and> (\<forall>key \<in> set keys. \<exists>rl < length crls.
             rls pp (key_project key) = Some rl
             \<and> crls ! rl = calls_for (key_project key) keys)"
proof -
  from pp_inv_run [OF pp_inv_start, of keys] assms have inv: "pp_inv keys (pp, crls)"
    by simp
  then have d: "dom (rls pp) = key_project ` set keys"
    and c: "card (dom (rls pp)) = length crls"
    and i: "inj_on (rls pp) (dom (rls pp))"
    and v: "\<And>p rl. rls pp p = Some rl \<Longrightarrow> rl < length crls \<and> crls ! rl = calls_for p keys"
    by (auto simp: pp_inv_def)
  have each: "\<exists>rl < length crls. rls pp (key_project key) = Some rl
                \<and> crls ! rl = calls_for (key_project key) keys"
    if "key \<in> set keys" for key
  proof -
    from that d have "key_project key \<in> dom (rls pp)" by auto
    then obtain rl where "rls pp (key_project key) = Some rl" by auto
    with v [OF this] show ?thesis by auto
  qed
  from d c i each show ?thesis
    by (simp add: key_project_def)
qed

theorem per_project_individual_witness:
  "fst (accept_each individual_Accept individual_test_keys (NewPerProjectRateLimiter, []))
     = replicate 4 None
   \<and> snd (snd (accept_each individual_Accept individual_test_keys
                   (NewPerProjectRateLimiter, []))) = [1, 2, 1]
   \<and> card (key_project ` set individual_test_keys) = 3"
proof -
  obtain errs pp crls where
    run: "accept_each individual_Accept individual_test_keys (NewPerProjectRateLimiter, [])
            = (errs, pp, crls)"
    by (metis prod_cases3)
  have val: "errs = replicate 4 None \<and> crls = [1, 2, 1]"
    using run
    by (auto simp: individual_test_keys_def individual_Accept_def
          PerProjectRateLimiter_Accept_def NewPerProjectRateLimiter_def key_project_def
          individual_factory_def CountingRateLimiter_Accept_def eval_nat_numeral int64_small)
  have small: "int (length individual_test_keys) < 2 ^ 63"
    by (simp add: individual_test_keys_def)
  from per_project_individual [OF run small]
  have "card (key_project ` set individual_test_keys) = length crls"
    by simp
  with val have "card (key_project ` set individual_test_keys) = 3"
    by simp
  with run val show ?thesis by simp
qed

end
